theory Spec2Isabelle
  imports Complex_Main "HOL-Library.Log_Nat" "HOL-Library.Code_Target_Nat"
begin

section \<open>JavaScript numbers\<close>

text \<open>
  The dashboard computes with JavaScript numbers: IEEE 754 binary64 values, every
  arithmetic result rounded to the nearest representable value, ties to the even
  significand. A finite number is modelled by the rational it denotes, so that the
  rounding of each single operation of the source is part of the model.
\<close>

datatype number = NaN | PosInf | NegInf | NegZero | Finite rat

text \<open>
  \<open>ilog2 q\<close> is the binary exponent of a positive rational: \<open>2^e \<le> q < 2^(e+1)\<close>.
\<close>

definition ilog2 :: "rat \<Rightarrow> int" where
  "ilog2 q = (if 1 \<le> q then bitlen \<lfloor>q\<rfloor> - 1 else - bitlen (\<lceil>1 / q\<rceil> - 1))"

definition round_half_even :: "rat \<Rightarrow> int" where
  "round_half_even x =
     (let n = \<lfloor>x\<rfloor>; r = x - of_int n
      in if r < 1 / 2 then n else if 1 / 2 < r then n + 1 else if even n then n else n + 1)"

text \<open>
  The unit in the last place of the binade of a positive rational: 53 significant bits,
  and the fixed spacing \<open>2^-1074\<close> of the subnormal range below \<open>2^-1022\<close>.
\<close>

definition ulp :: "rat \<Rightarrow> rat" where
  "ulp q = 2 powi (max (ilog2 q) (- 1022) - 52)"

text \<open>Round to nearest, ties to even, with the exponent unbounded above.\<close>

definition rnd :: "rat \<Rightarrow> rat" where
  "rnd q = (if q = 0 then 0
            else sgn q * (of_int (round_half_even (\<bar>q\<bar> / ulp \<bar>q\<bar>)) * ulp \<bar>q\<bar>))"

text \<open>
  The number for an exact result \<open>q\<close>: a zero result takes the sign \<open>neg\<close> that the
  operation prescribes, and a rounded magnitude of \<open>2^1024\<close> or more (binary exponent
  1024 or more) overflows to the infinity of the sign of \<open>q\<close>.
\<close>

definition to_number :: "bool \<Rightarrow> rat \<Rightarrow> number" where
  "to_number neg q =
     (let r = rnd q
      in if r = 0 then (if neg then NegZero else Finite 0)
         else if 1024 \<le> ilog2 \<bar>r\<bar> then (if q < 0 then NegInf else PosInf)
         else Finite r)"

text \<open>A decimal constant denotes the number nearest to its value.\<close>

definition lit :: "rat \<Rightarrow> number" where
  "lit q = to_number (q < 0) q"

fun is_neg :: "number \<Rightarrow> bool" where
  "is_neg NegInf = True"
| "is_neg NegZero = True"
| "is_neg (Finite q) = (q < 0)"
| "is_neg _ = False"

fun is_fin :: "number \<Rightarrow> bool" where
  "is_fin NegZero = True"
| "is_fin (Finite q) = True"
| "is_fin _ = False"

fun val :: "number \<Rightarrow> rat" where
  "val (Finite q) = q"
| "val _ = 0"

fun is_zero :: "number \<Rightarrow> bool" where
  "is_zero NegZero = True"
| "is_zero (Finite q) = (q = 0)"
| "is_zero _ = False"

fun is_inf :: "number \<Rightarrow> bool" where
  "is_inf PosInf = True"
| "is_inf NegInf = True"
| "is_inf _ = False"

definition inf_of :: "bool \<Rightarrow> number" where
  "inf_of neg = (if neg then NegInf else PosInf)"

definition zero_of :: "bool \<Rightarrow> number" where
  "zero_of neg = (if neg then NegZero else Finite 0)"

text \<open>Unary minus, and the operators \<open>+\<close>, \<open>-\<close>, \<open>*\<close>, \<open>/\<close> on numbers.\<close>

fun js_neg :: "number \<Rightarrow> number" where
  "js_neg NaN = NaN"
| "js_neg PosInf = NegInf"
| "js_neg NegInf = PosInf"
| "js_neg NegZero = Finite 0"
| "js_neg (Finite q) = (if q = 0 then NegZero else Finite (- q))"

definition js_add :: "number \<Rightarrow> number \<Rightarrow> number" where
  "js_add x y =
     (if x = NaN \<or> y = NaN then NaN
      else if is_inf x \<and> is_inf y then (if x = y then x else NaN)
      else if is_inf x then x
      else if is_inf y then y
      else if x = NegZero \<and> y = NegZero then NegZero
      else to_number (val x + val y < 0) (val x + val y))"

definition js_sub :: "number \<Rightarrow> number \<Rightarrow> number" where
  "js_sub x y = js_add x (js_neg y)"

definition js_mul :: "number \<Rightarrow> number \<Rightarrow> number" where
  "js_mul x y =
     (if x = NaN \<or> y = NaN then NaN
      else if (is_inf x \<and> is_zero y) \<or> (is_zero x \<and> is_inf y) then NaN
      else if is_inf x \<or> is_inf y then inf_of (is_neg x \<noteq> is_neg y)
      else to_number (is_neg x \<noteq> is_neg y) (val x * val y))"

definition js_div :: "number \<Rightarrow> number \<Rightarrow> number" where
  "js_div x y =
     (if x = NaN \<or> y = NaN then NaN
      else if is_inf x \<and> is_inf y then NaN
      else if is_inf x then inf_of (is_neg x \<noteq> is_neg y)
      else if is_inf y then zero_of (is_neg x \<noteq> is_neg y)
      else if is_zero y then (if is_zero x then NaN else inf_of (is_neg x \<noteq> is_neg y))
      else to_number (is_neg x \<noteq> is_neg y) (val x / val y))"

section \<open>Number to string\<close>

definition digit_char :: "nat \<Rightarrow> char" where
  "digit_char d = char_of (48 + d)"

text \<open>The decimal digits of a natural number, without leading zeros.\<close>

fun digits :: "nat \<Rightarrow> string" where
  "digits n = (if n < 10 then [digit_char n] else digits (n div 10) @ [digit_char (n mod 10)])"

declare digits.simps [simp del]

text \<open>
  The shortest decimal significand of \<open>k\<close> digits that denotes the integer-valued
  number \<open>a\<close> of \<open>l\<close> decimal digits: pairs \<open>(s, n)\<close> with \<open>s * 10^(n-k)\<close> rounding
  to \<open>a\<close>, the one nearest to \<open>a\<close> first.
\<close>

definition candidates :: "nat \<Rightarrow> nat \<Rightarrow> nat \<Rightarrow> (nat \<times> nat) list" where
  "candidates a l k =
     (let lo = a div 10 ^ (l - k);
          near = (if 2 * (a mod 10 ^ (l - k)) \<le> 10 ^ (l - k)
                  then [(lo, l), (lo + 1, l)] else [(lo + 1, l), (lo, l)])
      in filter (\<lambda>(s, n). 10 ^ (k - 1) \<le> s \<and> s < 10 ^ k \<and>
                           rnd (of_nat (s * 10 ^ (n - k))) = of_nat a)
           (near @ [(10 ^ (k - 1), l + 1)]))"

fun shortest :: "nat \<Rightarrow> nat \<Rightarrow> nat list \<Rightarrow> nat \<times> nat \<times> nat" where
  "shortest a l [] = (a, l, l)"
| "shortest a l (k # ks) =
     (case candidates a l k of [] \<Rightarrow> shortest a l ks | (s, n) # _ \<Rightarrow> (s, n, k))"

text \<open>
  \<open>Number::toString\<close> in radix 10 for a finite number of magnitude at least \<open>10^21\<close>
  (always an integer): exponential notation.
\<close>

definition toString_large :: "rat \<Rightarrow> string" where
  "toString_large x =
     (let a = nat \<lfloor>x\<rfloor>; l = length (digits a);
          (s, n, k) = shortest a l [1 ..< Suc l];
          ds = digits s
      in (if k = 1 then ds else take 1 ds @ ''.'' @ drop 1 ds) @ ''e+'' @ digits (n - 1))"

datatype error = RangeError | TypeError

text \<open>
  The digits of \<open>n\<close> with a point before the last \<open>f\<close> of them, padded with zeros on
  the left to at least \<open>f + 1\<close> digits.
\<close>

definition fixed_digits :: "nat \<Rightarrow> nat \<Rightarrow> string" where
  "fixed_digits f n =
     (let m = digits n
      in if f \<noteq> 0
         then (let k = length m;
                   m = (if k \<le> f then replicate (f + 1 - k) CHR ''0'' @ m else m);
                   k = (if k \<le> f then f + 1 else k)
               in take (k - f) m @ ''.'' @ drop (k - f) m)
         else m)"

text \<open>
  \<open>Number.prototype.toFixed(f)\<close>: a \<open>RangeError\<close> for \<open>f\<close> above 100; the names of the
  non-finite numbers; otherwise the sign, and for a magnitude below \<open>10^21\<close> the integer
  \<open>n\<close> nearest to \<open>x * 10^f\<close> (the larger one on a tie) written with \<open>f\<close> digits after
  the point.
\<close>

definition toFixed :: "nat \<Rightarrow> number \<Rightarrow> error + string" where
  "toFixed f x =
     (if 100 < f then Inl RangeError
      else case x of
        NaN \<Rightarrow> Inr ''NaN''
      | PosInf \<Rightarrow> Inr ''Infinity''
      | NegInf \<Rightarrow> Inr ''-Infinity''
      | _ \<Rightarrow>
         (let s = (if val x < 0 then ''-'' else '''');
              a = \<bar>val x\<bar>
          in if 10 ^ 21 \<le> a then Inr (s @ toString_large a)
             else Inr (s @ fixed_digits f (nat \<lfloor>a * 10 ^ f + 1 / 2\<rfloor>))))"

section \<open>The dashboard's tables and calculations\<close>

datatype region = Global | North_America | Europe | Asia | Africa | South_America | Oceania


record factors =
  temperature :: number
  precipitation :: number
  seaLevel :: number
  extremeEvents :: number

record point =
  year :: number
  temperature :: number

record metrics =
  temperature :: string
  precipitation :: string
  seaLevel :: string
  extremeEvents :: string

definition regionalFactors :: "(region \<times> factors) list" where
  "regionalFactors =
     [(Global, \<lparr>factors.temperature = lit 1, precipitation = lit 1,
                seaLevel = lit 1, extremeEvents = lit 1\<rparr>),
      (North_America, \<lparr>factors.temperature = lit (12 / 10), precipitation = lit (13 / 10),
                seaLevel = lit (8 / 10), extremeEvents = lit (11 / 10)\<rparr>),
      (Europe, \<lparr>factors.temperature = lit (11 / 10), precipitation = lit (12 / 10),
                seaLevel = lit (9 / 10), extremeEvents = lit (12 / 10)\<rparr>),
      (Asia, \<lparr>factors.temperature = lit (13 / 10), precipitation = lit (14 / 10),
                seaLevel = lit (12 / 10), extremeEvents = lit (13 / 10)\<rparr>),
      (Africa, \<lparr>factors.temperature = lit (14 / 10), precipitation = lit (7 / 10),
                seaLevel = lit (11 / 10), extremeEvents = lit (14 / 10)\<rparr>),
      (South_America, \<lparr>factors.temperature = lit (11 / 10), precipitation = lit (15 / 10),
                seaLevel = lit (10 / 10), extremeEvents = lit (12 / 10)\<rparr>),
      (Oceania, \<lparr>factors.temperature = lit (12 / 10), precipitation = lit (9 / 10),
                seaLevel = lit (13 / 10), extremeEvents = lit (11 / 10)\<rparr>)]"

text \<open>
  \<open>getRegionalHistoricalData\<close>: the seven anchor points, each base deviation scaled by
  the region's temperature factor. Reading a field of a missing table entry would raise
  a \<open>TypeError\<close>.
\<close>

definition getRegionalHistoricalData :: "region \<Rightarrow> error + point list" where
  "getRegionalHistoricalData region =
     (case map_of regionalFactors region of
        None \<Rightarrow> Inl TypeError
      | Some factor \<Rightarrow> Inr
         [\<lparr>year = lit 1900,
            temperature = js_mul (js_neg (lit (2 / 10))) (factors.temperature factor)\<rparr>,
          \<lparr>year = lit 1950, temperature = js_mul (lit 0) (factors.temperature factor)\<rparr>,
          \<lparr>year = lit 2000, temperature = js_mul (lit (5 / 10)) (factors.temperature factor)\<rparr>,
          \<lparr>year = lit 2023, temperature = js_mul (lit (11 / 10)) (factors.temperature factor)\<rparr>,
          \<lparr>year = lit 2030, temperature = js_mul (lit (13 / 10)) (factors.temperature factor)\<rparr>,
          \<lparr>year = lit 2040, temperature = js_mul (lit (14 / 10)) (factors.temperature factor)\<rparr>,
          \<lparr>year = lit 2050, temperature = js_mul (lit (16 / 10)) (factors.temperature factor)\<rparr>])"

text \<open>
  The \<open>metrics\<close> memo of \<open>ClimateAIDashboard\<close>, as a function of the two state values
  it reads, \<open>selectedRegion\<close> and \<open>selectedYear\<close>.
\<close>

definition computeMetrics :: "region \<Rightarrow> number \<Rightarrow> error + metrics" where
  "computeMetrics selectedRegion selectedYear =
     (let baseYear = lit 2023;
          yearDiff = js_sub selectedYear baseYear;
          baseTempIncrease =
            js_add (lit (11 / 10))
              (js_div (js_mul yearDiff (js_sub (lit (16 / 10)) (lit (11 / 10))))
                 (js_sub (lit 2050) (lit 2023)));
          basePrecipChange =
            js_div (js_mul yearDiff (lit (53 / 10))) (js_sub (lit 2050) (lit 2023));
          baseSeaLevelRise =
            js_div (js_mul yearDiff (lit (263 / 10))) (js_sub (lit 2050) (lit 2023));
          baseExtremeEvents =
            js_div (js_mul yearDiff (lit 32)) (js_sub (lit 2050) (lit 2023))
      in case map_of regionalFactors selectedRegion of
           None \<Rightarrow> Inl TypeError
         | Some factors \<Rightarrow>
            (case toFixed 1 (js_mul baseTempIncrease (factors.temperature factors)) of
               Inl e \<Rightarrow> Inl e
             | Inr t \<Rightarrow>
            (case toFixed 1 (js_mul basePrecipChange (factors.precipitation factors)) of
               Inl e \<Rightarrow> Inl e
             | Inr p \<Rightarrow>
            (case toFixed 1 (js_mul baseSeaLevelRise (factors.seaLevel factors)) of
               Inl e \<Rightarrow> Inl e
             | Inr s \<Rightarrow>
            (case toFixed 1 (js_mul baseExtremeEvents (factors.extremeEvents factors)) of
               Inl e \<Rightarrow> Inl e
             | Inr x \<Rightarrow>
                Inr \<lparr>metrics.temperature = t, precipitation = p,
                      seaLevel = s, extremeEvents = x\<rparr>)))))"

section \<open>Reading the formatted metrics\<close>




text \<open>The value \<open>v\<close> rounded to tenths, halves away from zero.\<close>

definition tenths :: "rat \<Rightarrow> rat" where
  "tenths v = (if v < 0 then - 1 else 1) * of_nat (nat \<lfloor>\<bar>v\<bar> * 10 + 1 / 2\<rfloor>) / 10"


section \<open>The specified calculator\<close>

text \<open>
  The specification gives each metric as a base value, linear in
  \<open>yearDiff = year - 2023\<close>, with the divisor 27 written out, evaluated in the
  arithmetic of the source language.
\<close>

definition spec_yearDiff :: "number \<Rightarrow> number" where
  "spec_yearDiff y = js_sub y (lit 2023)"

definition spec_temperature_base :: "number \<Rightarrow> number" where
  "spec_temperature_base yearDiff =
     js_add (lit (11 / 10))
       (js_div (js_mul yearDiff (js_sub (lit (16 / 10)) (lit (11 / 10)))) (lit 27))"

definition spec_precipitation_base :: "number \<Rightarrow> number" where
  "spec_precipitation_base yearDiff = js_div (js_mul yearDiff (lit (53 / 10))) (lit 27)"

definition spec_seaLevel_base :: "number \<Rightarrow> number" where
  "spec_seaLevel_base yearDiff = js_div (js_mul yearDiff (lit (263 / 10))) (lit 27)"

definition spec_extremeEvents_base :: "number \<Rightarrow> number" where
  "spec_extremeEvents_base yearDiff = js_div (js_mul yearDiff (lit 32)) (lit 27)"

text \<open>Each metric is its base value multiplied by the region's factor for that metric.\<close>

definition spec_temperature :: "factors \<Rightarrow> number \<Rightarrow> number" where
  "spec_temperature f y =
     js_mul (spec_temperature_base (spec_yearDiff y)) (factors.temperature f)"

definition spec_precipitation :: "factors \<Rightarrow> number \<Rightarrow> number" where
  "spec_precipitation f y =
     js_mul (spec_precipitation_base (spec_yearDiff y)) (factors.precipitation f)"

definition spec_seaLevel :: "factors \<Rightarrow> number \<Rightarrow> number" where
  "spec_seaLevel f y =
     js_mul (spec_seaLevel_base (spec_yearDiff y)) (factors.seaLevel f)"

definition spec_extremeEvents :: "factors \<Rightarrow> number \<Rightarrow> number" where
  "spec_extremeEvents f y =
     js_mul (spec_extremeEvents_base (spec_yearDiff y)) (factors.extremeEvents f)"

text \<open>The anchor years and base deviations of the specified historical series.\<close>

definition anchor_years :: "rat list" where
  "anchor_years = [1900, 1950, 2000, 2023, 2030, 2040, 2050]"

definition base_deviations :: "rat list" where
  "base_deviations = [- 2 / 10, 0, 5 / 10, 11 / 10, 13 / 10, 14 / 10, 16 / 10]"


section \<open>Properties of the number model\<close>

lemma two_powi_mono: "a \<le> b \<Longrightarrow> (2::rat) powi a \<le> 2 powi b"
  by (rule power_int_increasing) simp_all

lemma two_powi_less_imp: "(2::rat) powi a < 2 powi b \<Longrightarrow> a < b"
  using two_powi_mono[of b a] by (cases "a < b") simp_all

lemma two_powi_pos: "0 < (2::rat) powi a"
  by simp

lemma ilog2_ge1:
  assumes "1 \<le> q"
  shows "2 powi ilog2 q \<le> q \<and> q < 2 powi (ilog2 q + 1)"
proof -
  define n where "n = \<lfloor>q\<rfloor>"
  have n1: "1 \<le> n" using assms by (simp add: n_def)
  then have npos: "0 < n" by simp
  have b1: "1 \<le> bitlen n" using npos by (simp add: bitlen_alt_def)
  have il: "ilog2 q = bitlen n - 1" using assms by (simp add: ilog2_def n_def)
  from bitlen_bounds[OF npos]
  have lo: "2 ^ nat (bitlen n - 1) \<le> n" and hi: "n < 2 ^ nat (bitlen n)" by auto
  have "(2::rat) powi (bitlen n - 1) = 2 ^ nat (bitlen n - 1)"
    using b1 by (simp add: power_int_nonneg_exp)
  also have "\<dots> = of_int (2 ^ nat (bitlen n - 1))" by simp
  also have "\<dots> \<le> of_int n" using lo by (simp only: of_int_le_iff)
  also have "\<dots> \<le> q" by (simp add: n_def)
  finally have A: "2 powi ilog2 q \<le> q" by (simp add: il)
  have "n + 1 \<le> 2 ^ nat (bitlen n)" using hi by simp
  then have "(of_int (n + 1) :: rat) \<le> of_int (2 ^ nat (bitlen n))" by (simp only: of_int_le_iff)
  moreover have "q < of_int (n + 1)" unfolding n_def by linarith
  ultimately have "q < of_int (2 ^ nat (bitlen n))" by simp
  also have "\<dots> = 2 powi (bitlen n)" using b1 by (simp add: power_int_nonneg_exp)
  finally have B: "q < 2 powi (ilog2 q + 1)" by (simp add: il)
  from A B show ?thesis ..
qed

lemma ilog2_lt1:
  assumes "0 < q" "q < 1"
  shows "2 powi ilog2 q \<le> q \<and> q < 2 powi (ilog2 q + 1)"
proof -
  define m where "m = \<lceil>1 / q\<rceil> - 1"
  have "1 < 1 / q" using assms by simp
  then have "1 < \<lceil>1 / q\<rceil>" by (simp add: less_ceiling_iff)
  then have mpos: "0 < m" by (simp add: m_def)
  have b1: "1 \<le> bitlen m" using mpos by (simp add: bitlen_alt_def)
  have il: "ilog2 q = - bitlen m" using assms by (simp add: ilog2_def m_def)
  from bitlen_bounds[OF mpos]
  have lo: "2 ^ nat (bitlen m - 1) \<le> m" and hi: "m < 2 ^ nat (bitlen m)" by auto
  have m_lt: "of_int m < 1 / q" unfolding m_def by linarith
  have m_ge: "1 / q \<le> of_int (m + 1)" unfolding m_def by simp
  have "m + 1 \<le> 2 ^ nat (bitlen m)" using hi by simp
  then have "(of_int (m + 1) :: rat) \<le> of_int (2 ^ nat (bitlen m))" by (simp only: of_int_le_iff)
  with m_ge have "1 / q \<le> of_int (2 ^ nat (bitlen m))" by simp
  also have "\<dots> = 2 powi (bitlen m)" using b1 by (simp add: power_int_nonneg_exp)
  finally have "1 / q \<le> 2 powi (bitlen m)" .
  then have "1 \<le> 2 powi (bitlen m) * q" using assms(1) by (simp add: field_simps)
  then have A: "2 powi ilog2 q \<le> q"
    by (simp add: il power_int_minus field_simps)
  have "(2::rat) powi (bitlen m - 1) = of_int (2 ^ nat (bitlen m - 1))"
    using b1 by (simp add: power_int_nonneg_exp)
  also have "\<dots> \<le> of_int m" using lo by (simp only: of_int_le_iff)
  also have "\<dots> < 1 / q" by (rule m_lt)
  finally have "2 powi (bitlen m - 1) < 1 / q" .
  then have "q < 1 / 2 powi (bitlen m - 1)"
    using assms(1) two_powi_pos[of "bitlen m - 1"] by (simp add: field_simps)
  moreover have "(2::rat) powi (ilog2 q + 1) = 1 / 2 powi (bitlen m - 1)"
    by (simp add: il power_int_minus_divide[symmetric])
  ultimately have B: "q < 2 powi (ilog2 q + 1)" by simp
  from A B show ?thesis ..
qed

lemma ilog2_bounds:
  assumes "0 < q"
  shows "2 powi ilog2 q \<le> q" and "q < 2 powi (ilog2 q + 1)"
  using ilog2_ge1[of q] ilog2_lt1[of q] assms by (cases "1 \<le> q"; simp)+

lemma ilog2_unique:
  assumes "2 powi e \<le> q" "q < 2 powi (e + 1)"
  shows "ilog2 q = e"
proof -
  have qpos: "0 < q" using assms(1) by (rule less_le_trans[rotated]) simp
  note b = ilog2_bounds[OF qpos]
  have "(2::rat) powi e < 2 powi (ilog2 q + 1)" using assms(1) b(2) by simp
  then have "e < ilog2 q + 1" by (rule two_powi_less_imp)
  moreover have "(2::rat) powi ilog2 q < 2 powi (e + 1)" using assms(2) b(1) by simp
  then have "ilog2 q < e + 1" by (rule two_powi_less_imp)
  ultimately show ?thesis by simp
qed

lemma rhe_bounds: "\<lfloor>x\<rfloor> \<le> round_half_even x \<and> round_half_even x \<le> \<lfloor>x\<rfloor> + 1"
  by (simp add: round_half_even_def Let_def)

lemma rhe_of_int: "round_half_even (of_int n) = n"
  by (simp add: round_half_even_def)

lemma rhe_mono:
  assumes "x \<le> y"
  shows "round_half_even x \<le> round_half_even y"
proof (cases "\<lfloor>x\<rfloor> = \<lfloor>y\<rfloor>")
  case True
  then show ?thesis using assms by (auto simp: round_half_even_def Let_def)
next
  case False
  with assms have "\<lfloor>x\<rfloor> < \<lfloor>y\<rfloor>" using floor_mono[OF assms] by linarith
  then show ?thesis using rhe_bounds[of x] rhe_bounds[of y] by linarith
qed

lemma ilog2_mono:
  assumes "0 < a" "a \<le> b"
  shows "ilog2 a \<le> ilog2 b"
proof -
  have "0 < b" using assms by simp
  from ilog2_bounds(1)[OF assms(1)] ilog2_bounds(2)[OF \<open>0 < b\<close>] assms(2)
  have "(2::rat) powi ilog2 a < 2 powi (ilog2 b + 1)" by simp
  then have "ilog2 a < ilog2 b + 1" by (rule two_powi_less_imp)
  then show ?thesis by simp
qed

lemma ulp_pos: "0 < ulp q"
  by (simp add: ulp_def)

lemma rnd_pos_eq: "0 < q \<Longrightarrow> rnd q = of_int (round_half_even (q / ulp q)) * ulp q"
  by (simp add: rnd_def)

lemma rnd_minus: "rnd (- q) = - rnd q"
  by (simp add: rnd_def sgn_minus)

lemma rnd_zero: "rnd 0 = 0"
  by (simp add: rnd_def)

lemma rnd_nonneg:
  assumes "0 \<le> q"
  shows "0 \<le> rnd q"
proof (cases "q = 0")
  case True
  then show ?thesis by (simp add: rnd_zero)
next
  case False
  with assms have qpos: "0 < q" by simp
  have "0 \<le> q / ulp q" using qpos ulp_pos[of q] by simp
  then have "round_half_even 0 \<le> round_half_even (q / ulp q)" by (rule rhe_mono)
  then have "0 \<le> round_half_even (q / ulp q)" using rhe_of_int[of 0] by simp
  then show ?thesis using ulp_pos[of q] by (simp add: rnd_pos_eq[OF qpos])
qed

lemma rnd_upper:
  assumes "0 < q"
  shows "rnd q \<le> 2 powi (max (ilog2 q) (- 1022) + 1)"
proof -
  define e where "e = max (ilog2 q) (- 1022)"
  have u: "ulp q = 2 powi (e - 52)" by (simp add: ulp_def e_def)
  have "q < 2 powi (ilog2 q + 1)" by (rule ilog2_bounds(2)[OF assms])
  also have "\<dots> \<le> 2 powi (e + 1)" by (rule two_powi_mono) (simp add: e_def)
  finally have "q < 2 powi (e + 1)" .
  moreover have "(2::rat) powi (e + 1) = 2 ^ 53 * 2 powi (e - 52)"
    by (simp add: power_int_diff power_int_add)
  ultimately have "q / ulp q \<le> of_int (2 ^ 53)"
    using two_powi_pos[of "e - 52"] by (simp add: u pos_divide_le_eq)
  then have "round_half_even (q / ulp q) \<le> round_half_even (of_int (2 ^ 53))"
    by (rule rhe_mono)
  then have "round_half_even (q / ulp q) \<le> 2 ^ 53" by (simp only: rhe_of_int)
  then have "(of_int (round_half_even (q / ulp q)) :: rat) \<le> of_int (2 ^ 53)"
    by (simp only: of_int_le_iff)
  then have "of_int (round_half_even (q / ulp q)) * ulp q \<le> of_int (2 ^ 53) * ulp q"
    using ulp_pos[of q] by (simp only: mult_le_cancel_right_pos)
  also have "\<dots> = 2 powi (e + 1)"
    by (simp add: u power_int_diff power_int_add)
  finally show ?thesis by (simp add: rnd_pos_eq[OF assms] e_def)
qed

lemma rnd_lower:
  assumes "0 < q" "- 1022 \<le> ilog2 q"
  shows "2 powi ilog2 q \<le> rnd q"
proof -
  define e where "e = ilog2 q"
  have u: "ulp q = 2 powi (e - 52)" using assms(2) by (simp add: ulp_def e_def max_def)
  have "2 powi e \<le> q" unfolding e_def by (rule ilog2_bounds(1)[OF assms(1)])
  moreover have "(2::rat) powi e = 2 ^ 52 * 2 powi (e - 52)"
    by (simp add: power_int_diff)
  ultimately have "of_int (2 ^ 52) \<le> q / ulp q"
    using two_powi_pos[of "e - 52"] by (simp add: u pos_le_divide_eq)
  then have "round_half_even (of_int (2 ^ 52)) \<le> round_half_even (q / ulp q)"
    by (rule rhe_mono)
  then have "2 ^ 52 \<le> round_half_even (q / ulp q)" by (simp only: rhe_of_int)
  then have "(of_int (2 ^ 52) :: rat) \<le> of_int (round_half_even (q / ulp q))"
    by (simp only: of_int_le_iff)
  then have "of_int (2 ^ 52) * ulp q \<le> of_int (round_half_even (q / ulp q)) * ulp q"
    using ulp_pos[of q] by (simp only: mult_le_cancel_right_pos)
  moreover have "of_int (2 ^ 52) * ulp q = 2 powi e"
    by (simp add: u power_int_diff)
  ultimately show ?thesis by (simp add: rnd_pos_eq[OF assms(1)] e_def)
qed

lemma rnd_pos_mono:
  assumes "0 < a" "a \<le> b"
  shows "rnd a \<le> rnd b"
proof -
  have bpos: "0 < b" using assms by simp
  define ea where "ea = max (ilog2 a) (- 1022)"
  define eb where "eb = max (ilog2 b) (- 1022)"
  have le: "ea \<le> eb" using ilog2_mono[OF assms] by (simp add: ea_def eb_def)
  show ?thesis
  proof (cases "ea = eb")
    case True
    then have u: "ulp a = ulp b" by (simp add: ulp_def ea_def eb_def)
    have "a / ulp b \<le> b / ulp b" using assms(2) ulp_pos[of b] by (simp add: divide_right_mono)
    then have "round_half_even (a / ulp b) \<le> round_half_even (b / ulp b)" by (rule rhe_mono)
    then have "(of_int (round_half_even (a / ulp b)) :: rat) \<le> of_int (round_half_even (b / ulp b))"
      by (simp only: of_int_le_iff)
    then have "of_int (round_half_even (a / ulp b)) * ulp b
                 \<le> of_int (round_half_even (b / ulp b)) * ulp b"
      using ulp_pos[of b] by (simp only: mult_le_cancel_right_pos)
    then show ?thesis by (simp add: rnd_pos_eq[OF assms(1)] rnd_pos_eq[OF bpos] u)
  next
    case False
    with le have lt: "ea < eb" by simp
    then have eb: "eb = ilog2 b" and big: "- 1022 \<le> ilog2 b"
      by (auto simp: ea_def eb_def max_def split: if_splits)
    have "rnd a \<le> 2 powi (ea + 1)" unfolding ea_def by (rule rnd_upper[OF assms(1)])
    also have "\<dots> \<le> 2 powi eb" by (rule two_powi_mono) (use lt in simp)
    also have "\<dots> \<le> rnd b" unfolding eb by (rule rnd_lower[OF bpos big])
    finally show ?thesis .
  qed
qed

lemma rnd_mono:
  assumes "a \<le> b"
  shows "rnd a \<le> rnd b"
proof -
  consider "0 < a" | "a \<le> 0" "0 \<le> b" | "b < 0" by linarith
  then show ?thesis
  proof cases
    case 1
    then show ?thesis using assms by (rule rnd_pos_mono)
  next
    case 2
    have "rnd a \<le> 0" using rnd_nonneg[of "- a"] 2(1) by (simp add: rnd_minus)
    also have "0 \<le> rnd b" using 2(2) by (rule rnd_nonneg)
    finally show ?thesis .
  next
    case 3
    then have "0 < - b" "- b \<le> - a" using assms by simp_all
    then have "rnd (- b) \<le> rnd (- a)" by (rule rnd_pos_mono)
    then show ?thesis by (simp add: rnd_minus)
  qed
qed

lemma rnd_pow2:
  assumes "- 1022 \<le> k"
  shows "rnd (2 powi k) = 2 powi k"
proof -
  have il: "ilog2 (2 powi k) = k"
    by (rule ilog2_unique) (simp_all add: power_int_add)
  have u: "ulp (2 powi k) = 2 powi (k - 52)" using assms by (simp add: ulp_def il max_def)
  have "(2::rat) powi k / 2 powi (k - 52) = of_int (2 ^ 52)"
    by (simp add: power_int_diff)
  then have "round_half_even (2 powi k / ulp (2 powi k)) = 2 ^ 52"
    by (simp only: u rhe_of_int)
  then show ?thesis
    using rnd_pos_eq[OF two_powi_pos, of k] by (simp add: u power_int_diff)
qed

lemma rnd_abs: "\<bar>rnd q\<bar> = rnd \<bar>q\<bar>"
  using rnd_nonneg[of q] rnd_nonneg[of "- q"] by (cases "0 \<le> q") (simp_all add: rnd_minus)

lemma rnd_abs_le:
  assumes "- 1022 \<le> k" "\<bar>q\<bar> \<le> 2 powi k"
  shows "\<bar>rnd q\<bar> \<le> 2 powi k"
proof -
  have "rnd \<bar>q\<bar> \<le> rnd (2 powi k)" using assms(2) by (rule rnd_mono)
  then show ?thesis by (simp add: rnd_abs rnd_pow2[OF assms(1)])
qed

lemma to_number_fin:
  assumes "\<bar>rnd q\<bar> < 2 powi 1024"
  shows "is_fin (to_number s q)" and "val (to_number s q) = rnd q"
proof -
  have "\<not> 1024 \<le> ilog2 \<bar>rnd q\<bar>" if "rnd q \<noteq> 0"
  proof -
    have "0 < \<bar>rnd q\<bar>" using that by simp
    from ilog2_bounds(1)[OF this] assms
    have "(2::rat) powi ilog2 \<bar>rnd q\<bar> < 2 powi 1024" by simp
    then have "ilog2 \<bar>rnd q\<bar> < 1024" by (rule two_powi_less_imp)
    then show ?thesis by simp
  qed
  then show "is_fin (to_number s q)" and "val (to_number s q) = rnd q"
    by (auto simp: to_number_def Let_def)
qed

lemma to_number_bounded:
  assumes "- 1022 \<le> k" "k < 1024" "\<bar>q\<bar> \<le> 2 powi k"
  shows "is_fin (to_number s q)" and "val (to_number s q) = rnd q"
proof -
  have "\<bar>rnd q\<bar> \<le> 2 powi k" using assms(1,3) by (rule rnd_abs_le)
  also have "(2::rat) powi k < 2 powi 1024"
    by (rule power_int_strict_increasing) (use assms(2) in simp_all)
  finally have "\<bar>rnd q\<bar> < 2 powi 1024" .
  then show "is_fin (to_number s q)" and "val (to_number s q) = rnd q"
    by (rule to_number_fin)+
qed







lemma two_powi_le_imp: "(2::rat) powi a \<le> 2 powi b \<Longrightarrow> a \<le> b"
  using power_int_strict_increasing[of b a "2::rat"] by (cases "a \<le> b") simp_all

lemma rnd_pos:
  assumes "- 1022 \<le> j" "2 powi j \<le> q"
  shows "0 < rnd q"
proof -
  have qpos: "0 < q" by (rule less_le_trans[OF two_powi_pos assms(2)])
  have "(2::rat) powi j < 2 powi (ilog2 q + 1)"
    using assms(2) ilog2_bounds(2)[OF qpos] by simp
  then have "j < ilog2 q + 1" by (rule two_powi_less_imp)
  then have "- 1022 \<le> ilog2 q" using assms(1) by simp
  then show ?thesis by (rule less_le_trans[OF two_powi_pos rnd_lower[OF qpos]])
qed

lemma lit_pos_bounded:
  assumes "- 1022 \<le> j" "2 powi j \<le> q" "q \<le> 2 powi k" "k < 1024"
  shows "is_fin (lit q)" and "0 < val (lit q)" and "val (lit q) \<le> 2 powi k"
proof -
  have qpos: "0 < q" by (rule less_le_trans[OF two_powi_pos assms(2)])
  have "(2::rat) powi j \<le> 2 powi k" using assms(2,3) by simp
  then have "j \<le> k" by (rule two_powi_le_imp)
  then have jk: "- 1022 \<le> k" using assms(1) by simp
  have ab: "\<bar>q\<bar> \<le> 2 powi k" using qpos assms(3) by simp
  from to_number_bounded[OF jk assms(4) ab, of "q < 0"]
  have f: "is_fin (lit q)" and v: "val (lit q) = rnd q" by (simp_all add: lit_def)
  show "is_fin (lit q)" by (rule f)
  show "0 < val (lit q)" using rnd_pos[OF assms(1,2)] by (simp add: v)
  show "val (lit q) \<le> 2 powi k" using rnd_abs_le[OF jk ab] by (simp add: v)
qed

lemma lit_factor:
  assumes "1 / 2 \<le> q" "q \<le> 2"
  shows "is_fin (lit q)" and "0 < val (lit q)" and "val (lit q) \<le> 2"
  using lit_pos_bounded[of "- 1" q 1] assms by simp_all

lemma regions_lookup:
  "\<exists>f. map_of regionalFactors R = Some f"
  by (cases R) (simp_all add: regionalFactors_def)

lemma factors_good:
  assumes "map_of regionalFactors R = Some f"
  shows "is_fin (factors.temperature f)" "0 < val (factors.temperature f)"
      "val (factors.temperature f) \<le> 2"
    and "is_fin (factors.precipitation f)" "0 < val (factors.precipitation f)"
      "val (factors.precipitation f) \<le> 2"
    and "is_fin (factors.seaLevel f)" "0 < val (factors.seaLevel f)"
      "val (factors.seaLevel f) \<le> 2"
    and "is_fin (factors.extremeEvents f)" "0 < val (factors.extremeEvents f)"
      "val (factors.extremeEvents f) \<le> 2"
  using assms by (cases R; auto simp: regionalFactors_def lit_factor)+

















lemma lit_2023: "lit 2023 = Finite 2023"
  by code_simp


lemma span_27: "js_sub (lit 2050) (lit 2023) = lit 27"
  by code_simp


lemma toFixed_1_total: "\<exists>s. toFixed 1 x = Inr s"
  by (cases x) (simp_all add: toFixed_def Let_def)

lemma computeMetrics_formulas:
  assumes "map_of regionalFactors R = Some f"
  shows "\<exists>t p s x.
           toFixed 1 (spec_temperature f y) = Inr t \<and>
           toFixed 1 (spec_precipitation f y) = Inr p \<and>
           toFixed 1 (spec_seaLevel f y) = Inr s \<and>
           toFixed 1 (spec_extremeEvents f y) = Inr x \<and>
           computeMetrics R y =
             Inr \<lparr>metrics.temperature = t, precipitation = p, seaLevel = s, extremeEvents = x\<rparr>"
proof -
  obtain t where t: "toFixed 1 (spec_temperature f y) = Inr t"
    using toFixed_1_total by blast
  obtain p where p: "toFixed 1 (spec_precipitation f y) = Inr p"
    using toFixed_1_total by blast
  obtain s where s: "toFixed 1 (spec_seaLevel f y) = Inr s"
    using toFixed_1_total by blast
  obtain x where x: "toFixed 1 (spec_extremeEvents f y) = Inr x"
    using toFixed_1_total by blast
  have "computeMetrics R y =
          Inr \<lparr>metrics.temperature = t, precipitation = p, seaLevel = s, extremeEvents = x\<rparr>"
    using t p s x assms
    unfolding computeMetrics_def Let_def span_27 spec_temperature_def spec_precipitation_def
      spec_seaLevel_def spec_extremeEvents_def spec_temperature_base_def
      spec_precipitation_base_def spec_seaLevel_base_def spec_extremeEvents_base_def
      spec_yearDiff_def
    by simp
  with t p s x show ?thesis by blast
qed









lemma tenths_close: "\<bar>tenths v - v\<bar> \<le> 1 / 20"
proof -
  define n where "n = \<lfloor>\<bar>v\<bar> * 10 + 1 / 2\<rfloor>"
  have n0: "0 \<le> n" by (simp add: n_def)
  have "of_int n \<le> \<bar>v\<bar> * 10 + 1 / 2" "\<bar>v\<bar> * 10 + 1 / 2 < of_int n + 1"
    unfolding n_def by linarith+
  then have "of_int n / 10 - \<bar>v\<bar> \<le> 1 / 20" "\<bar>v\<bar> - of_int n / 10 \<le> 1 / 20"
    by linarith+
  then have c: "\<bar>of_int n / 10 - \<bar>v\<bar>\<bar> \<le> 1 / 20" by linarith
  have t: "tenths v = (if v < 0 then - 1 else 1) * (of_int n / 10)"
    using n0 by (simp add: tenths_def n_def)
  show ?thesis
  proof (cases "v < 0")
    case True
    then have "tenths v - v = - (of_int n / 10 - \<bar>v\<bar>)" by (simp add: t)
    then show ?thesis using c by (simp only: abs_minus)
  next
    case False
    then have "tenths v - v = of_int n / 10 - \<bar>v\<bar>" by (simp add: t)
    then show ?thesis using c by simp
  qed
qed










section \<open>The calculator at the two ends of the nominal window\<close>

lemma yearDiff_2023: "spec_yearDiff (Finite 2023) = Finite 0"
  by code_simp

lemma temperature_base_0: "spec_temperature_base (Finite 0) = lit (11 / 10)"
  by code_simp

lemma precipitation_base_0: "spec_precipitation_base (Finite 0) = Finite 0"
  by code_simp

lemma seaLevel_base_0: "spec_seaLevel_base (Finite 0) = Finite 0"
  by code_simp

lemma extremeEvents_base_0: "spec_extremeEvents_base (Finite 0) = Finite 0"
  by code_simp

lemma temperature_base_2050: "spec_temperature_base (spec_yearDiff (Finite 2050)) = lit (16 / 10)"
  by code_simp

lemma toFixed_zero: "toFixed 1 (Finite 0) = Inr ''0.0''"
  by code_simp

lemma neg_lit_02: "js_neg (lit (2 / 10)) = lit (- 2 / 10)"
  by code_simp

lemma lit_years:
  "lit 1900 = Finite 1900" "lit 1950 = Finite 1950" "lit 2000 = Finite 2000"
  "lit 2030 = Finite 2030" "lit 2040 = Finite 2040" "lit 2050 = Finite 2050"
  by code_simp+

lemma lit_1: "lit 1 = Finite 1"
  by code_simp

lemma js_mul_zero_pos:
  assumes "is_fin x" "0 < val x"
  shows "js_mul (Finite 0) x = Finite 0"
  using assms by (cases x) (simp_all add: js_mul_def to_number_def rnd_zero)

lemma base_year_products:
  assumes "map_of regionalFactors R = Some f"
  shows "spec_temperature f (Finite 2023) = js_mul (lit (11 / 10)) (factors.temperature f)"
    and "spec_precipitation f (Finite 2023) = Finite 0"
    and "spec_seaLevel f (Finite 2023) = Finite 0"
    and "spec_extremeEvents f (Finite 2023) = Finite 0"
proof -
  note g = factors_good[OF assms]
  show "spec_temperature f (Finite 2023) = js_mul (lit (11 / 10)) (factors.temperature f)"
    unfolding spec_temperature_def yearDiff_2023 temperature_base_0 ..
  show "spec_precipitation f (Finite 2023) = Finite 0"
    unfolding spec_precipitation_def yearDiff_2023 precipitation_base_0
    by (rule js_mul_zero_pos[OF g(4,5)])
  show "spec_seaLevel f (Finite 2023) = Finite 0"
    unfolding spec_seaLevel_def yearDiff_2023 seaLevel_base_0
    by (rule js_mul_zero_pos[OF g(7,8)])
  show "spec_extremeEvents f (Finite 2023) = Finite 0"
    unfolding spec_extremeEvents_def yearDiff_2023 extremeEvents_base_0
    by (rule js_mul_zero_pos[OF g(10,11)])
qed

lemma lookup_Global:
  "map_of regionalFactors Global =
     Some \<lparr>factors.temperature = lit 1, precipitation = lit 1, seaLevel = lit 1,
            extremeEvents = lit 1\<rparr>"
  by (simp add: regionalFactors_def)

lemma lookup_Africa:
  "map_of regionalFactors Africa =
     Some \<lparr>factors.temperature = lit (14 / 10), precipitation = lit (7 / 10),
            seaLevel = lit (11 / 10), extremeEvents = lit (14 / 10)\<rparr>"
  by (simp add: regionalFactors_def)

lemma lookup_Europe:
  "map_of regionalFactors Europe =
     Some \<lparr>factors.temperature = lit (11 / 10), precipitation = lit (12 / 10),
            seaLevel = lit (9 / 10), extremeEvents = lit (12 / 10)\<rparr>"
  by (simp add: regionalFactors_def)

lemma lookup_South_America:
  "map_of regionalFactors South_America =
     Some \<lparr>factors.temperature = lit (11 / 10), precipitation = lit (15 / 10),
            seaLevel = lit (10 / 10), extremeEvents = lit (12 / 10)\<rparr>"
  by (simp add: regionalFactors_def)

lemma series_of_factor:
  assumes "map_of regionalFactors R = Some f"
  shows "getRegionalHistoricalData R = Inr
     [\<lparr>year = Finite 1900, temperature = js_mul (lit (- 2 / 10)) (factors.temperature f)\<rparr>,
      \<lparr>year = Finite 1950, temperature = js_mul (lit 0) (factors.temperature f)\<rparr>,
      \<lparr>year = Finite 2000, temperature = js_mul (lit (5 / 10)) (factors.temperature f)\<rparr>,
      \<lparr>year = Finite 2023, temperature = js_mul (lit (11 / 10)) (factors.temperature f)\<rparr>,
      \<lparr>year = Finite 2030, temperature = js_mul (lit (13 / 10)) (factors.temperature f)\<rparr>,
      \<lparr>year = Finite 2040, temperature = js_mul (lit (14 / 10)) (factors.temperature f)\<rparr>,
      \<lparr>year = Finite 2050, temperature = js_mul (lit (16 / 10)) (factors.temperature f)\<rparr>]"
  unfolding getRegionalHistoricalData_def assms neg_lit_02 lit_years lit_2023 by simp

section \<open>The number model on well-known values\<close>

text \<open>
  Two results every JavaScript engine gives: \<open>(0.1 + 0.2).toFixed(17)\<close> and
  \<open>(1.005).toFixed(2)\<close>.
\<close>

lemma known_sum: "toFixed 17 (js_add (lit (1 / 10)) (lit (2 / 10))) = Inr ''0.30000000000000004''"
  by code_simp

lemma known_fixed: "toFixed 2 (lit (1005 / 1000)) = Inr ''1.00''"
  by code_simp

text \<open>
  The metrics are those of the source's arithmetic, each operation rounded: for South
  America at 2032 the precipitation is "2.6", whereas the product of the exact decimal
  constants, 9 * 5.3 / 27 * 1.5 = 2.65, would be rounded to 2.7.
\<close>

lemma binary64_rounding_example:
  "computeMetrics South_America (Finite 2032) =
     Inr \<lparr>metrics.temperature = ''1.4'', precipitation = ''2.6'',
           seaLevel = ''8.8'', extremeEvents = ''12.8''\<rparr> \<and>
   tenths ((2032 - 2023) * (53 / 10) / 27 * (15 / 10)) = 27 / 10"
proof -
  have "computeMetrics South_America (Finite 2032) =
     Inr \<lparr>metrics.temperature = ''1.4'', precipitation = ''2.6'',
           seaLevel = ''8.8'', extremeEvents = ''12.8''\<rparr>"
    by code_simp
  moreover have "tenths ((2032 - 2023) * (53 / 10) / 27 * (15 / 10)) = 27 / 10"
    by (simp add: tenths_def)
  ultimately show ?thesis ..
qed

section \<open>The claims\<close>



text \<open>
  C2. For every region the historical series has exactly 7 entries, their years are
  exactly 1900, 1950, 2000, 2023, 2030, 2040, 2050 in this ascending order, and the
  temperature of entry \<open>i\<close> is the \<open>i\<close>-th base deviation of -0.2, 0, 0.5, 1.1, 1.3, 1.4,
  1.6 multiplied by the region's temperature factor; the entry at index 3 has year 2023
  and temperature 1.1 times the factor.
\<close>

theorem historical_series_anchors:
  "\<exists>f ps. map_of regionalFactors R = Some f \<and>
     getRegionalHistoricalData R = Inr ps \<and>
     length ps = 7 \<and>
     map point.year ps = map Finite anchor_years \<and>
     anchor_years = [1900, 1950, 2000, 2023, 2030, 2040, 2050] \<and>
     sorted_wrt (<) anchor_years \<and>
     base_deviations = [- 2 / 10, 0, 5 / 10, 11 / 10, 13 / 10, 14 / 10, 16 / 10] \<and>
     map point.temperature ps =
       map (\<lambda>b. js_mul (lit b) (factors.temperature f)) base_deviations \<and>
     point.year (ps ! 3) = Finite 2023 \<and>
     point.temperature (ps ! 3) = js_mul (lit (11 / 10)) (factors.temperature f)"
proof -
  obtain f where f: "map_of regionalFactors R = Some f" using regions_lookup by blast
  show ?thesis
    by (intro exI conjI, rule f, rule series_of_factor[OF f])
      (simp_all add: anchor_years_def base_deviations_def)
qed

text \<open>
  C3. For every region, at year 2023 the temperature metric is 1.1 times the region's
  temperature factor formatted to one decimal place, and precipitation, sea level and
  extreme events are all the string "0.0".
\<close>

theorem metrics_at_base_year:
  "\<exists>f t. map_of regionalFactors R = Some f \<and>
         toFixed 1 (js_mul (lit (11 / 10)) (factors.temperature f)) = Inr t \<and>
         computeMetrics R (Finite 2023) =
           Inr \<lparr>metrics.temperature = t, precipitation = ''0.0'',
                 seaLevel = ''0.0'', extremeEvents = ''0.0''\<rparr>"
proof -
  obtain f where f: "map_of regionalFactors R = Some f" using regions_lookup by blast
  note b = base_year_products[OF f]
  from computeMetrics_formulas[OF f, of "Finite 2023"]
  obtain t p s x where
    t: "toFixed 1 (spec_temperature f (Finite 2023)) = Inr t" and
    p: "toFixed 1 (spec_precipitation f (Finite 2023)) = Inr p" and
    s: "toFixed 1 (spec_seaLevel f (Finite 2023)) = Inr s" and
    x: "toFixed 1 (spec_extremeEvents f (Finite 2023)) = Inr x" and
    m: "computeMetrics R (Finite 2023) =
          Inr \<lparr>metrics.temperature = t, precipitation = p, seaLevel = s, extremeEvents = x\<rparr>"
    by blast
  have t': "toFixed 1 (js_mul (lit (11 / 10)) (factors.temperature f)) = Inr t"
    using t unfolding b(1) .
  have p': "p = ''0.0''" using p unfolding b(2) toFixed_zero by simp
  have s': "s = ''0.0''" using s unfolding b(3) toFixed_zero by simp
  have x': "x = ''0.0''" using x unfolding b(4) toFixed_zero by simp
  from f t' m p' s' x' show ?thesis by blast
qed

text \<open>
  C4. For every region, at year 2050 the temperature metric is 1.6 times the region's
  temperature factor formatted to one decimal place; for Global, whose four factors are
  all 1, the metrics at 2050 are "1.6", "5.3", "26.3" and "32.0".
\<close>

theorem metrics_at_2050:
  "(\<exists>f m. map_of regionalFactors R = Some f \<and>
          computeMetrics R (Finite 2050) = Inr m \<and>
          toFixed 1 (js_mul (lit (16 / 10)) (factors.temperature f))
            = Inr (metrics.temperature m)) \<and>
   map_of regionalFactors Global =
     Some \<lparr>factors.temperature = Finite 1, precipitation = Finite 1, seaLevel = Finite 1,
            extremeEvents = Finite 1\<rparr> \<and>
   computeMetrics Global (Finite 2050) =
     Inr \<lparr>metrics.temperature = ''1.6'', precipitation = ''5.3'',
           seaLevel = ''26.3'', extremeEvents = ''32.0''\<rparr>"
proof -
  obtain f where f: "map_of regionalFactors R = Some f" using regions_lookup by blast
  from computeMetrics_formulas[OF f, of "Finite 2050"]
  obtain t p s x where
    t: "toFixed 1 (spec_temperature f (Finite 2050)) = Inr t" and
    m: "computeMetrics R (Finite 2050) =
          Inr \<lparr>metrics.temperature = t, precipitation = p, seaLevel = s, extremeEvents = x\<rparr>"
    by blast
  have "toFixed 1 (js_mul (lit (16 / 10)) (factors.temperature f)) = Inr t"
    using t unfolding spec_temperature_def temperature_base_2050 .
  with f m have a: "\<exists>f m. map_of regionalFactors R = Some f \<and>
          computeMetrics R (Finite 2050) = Inr m \<and>
          toFixed 1 (js_mul (lit (16 / 10)) (factors.temperature f))
            = Inr (metrics.temperature m)"
    by simp
  have b: "map_of regionalFactors Global =
     Some \<lparr>factors.temperature = Finite 1, precipitation = Finite 1, seaLevel = Finite 1,
            extremeEvents = Finite 1\<rparr>"
    unfolding lookup_Global lit_1 ..
  have c: "computeMetrics Global (Finite 2050) =
     Inr \<lparr>metrics.temperature = ''1.6'', precipitation = ''5.3'',
           seaLevel = ''26.3'', extremeEvents = ''32.0''\<rparr>"
    by code_simp
  from a b c show ?thesis by (intro conjI)
qed





text \<open>
  C7. The calculator validates no year: for every region and every number given as the
  year, in particular every integer below 2023 or above 2050, the call returns without
  an error, and what it returns are the same four formulas, evaluated at that year.
\<close>

theorem no_year_validation:
  "\<exists>f t p s x.
     map_of regionalFactors R = Some f \<and>
     toFixed 1 (spec_temperature f y) = Inr t \<and>
     toFixed 1 (spec_precipitation f y) = Inr p \<and>
     toFixed 1 (spec_seaLevel f y) = Inr s \<and>
     toFixed 1 (spec_extremeEvents f y) = Inr x \<and>
     computeMetrics R y =
       Inr \<lparr>metrics.temperature = t, precipitation = p, seaLevel = s, extremeEvents = x\<rparr>"
proof -
  obtain f where f: "map_of regionalFactors R = Some f" using regions_lookup by blast
  from computeMetrics_formulas[OF f, of y] f show ?thesis by blast
qed

text \<open>
  C8. For Africa, whose temperature factor is 1.4, the temperature metric at year 2023
  is the string "1.5".
\<close>

theorem africa_2023_temperature:
  "(\<exists>f. map_of regionalFactors Africa = Some f \<and> factors.temperature f = lit (14 / 10)) \<and>
   (\<exists>m. computeMetrics Africa (Finite 2023) = Inr m \<and> metrics.temperature m = ''1.5'')"
proof -
  obtain f where f: "map_of regionalFactors Africa = Some f" using regions_lookup by blast
  have ft: "factors.temperature f = lit (14 / 10)" using f unfolding lookup_Africa by auto
  from computeMetrics_formulas[OF f, of "Finite 2023"]
  obtain t p s x where
    t: "toFixed 1 (spec_temperature f (Finite 2023)) = Inr t" and
    m: "computeMetrics Africa (Finite 2023) =
          Inr \<lparr>metrics.temperature = t, precipitation = p, seaLevel = s, extremeEvents = x\<rparr>"
    by blast
  have "toFixed 1 (js_mul (lit (11 / 10)) (lit (14 / 10))) = Inr ''1.5''" by code_simp
  with t have "t = ''1.5''" unfolding base_year_products(1)[OF f] ft by simp
  with f ft m show ?thesis by simp
qed


text \<open>
  C10. The historical series of a region depends on its temperature factor only: two
  regions with equal temperature factors have equal series. Europe and South America,
  both with temperature factor 1.1 but with different precipitation factors, have equal
  series.
\<close>

theorem series_depends_on_temperature_factor:
  "(map_of regionalFactors R1 = Some f1 \<and> map_of regionalFactors R2 = Some f2 \<and>
    factors.temperature f1 = factors.temperature f2 \<longrightarrow>
      getRegionalHistoricalData R1 = getRegionalHistoricalData R2) \<and>
   (\<exists>fe fs. map_of regionalFactors Europe = Some fe \<and>
            map_of regionalFactors South_America = Some fs \<and>
            factors.temperature fe = lit (11 / 10) \<and>
            factors.temperature fs = lit (11 / 10) \<and>
            factors.precipitation fe \<noteq> factors.precipitation fs) \<and>
   getRegionalHistoricalData Europe = getRegionalHistoricalData South_America"
proof -
  have a: "map_of regionalFactors R1 = Some f1 \<and> map_of regionalFactors R2 = Some f2 \<and>
    factors.temperature f1 = factors.temperature f2 \<longrightarrow>
      getRegionalHistoricalData R1 = getRegionalHistoricalData R2"
    by (simp add: getRegionalHistoricalData_def)
  have ne: "lit (12 / 10) \<noteq> lit (15 / 10)" by code_simp
  have b: "\<exists>fe fs. map_of regionalFactors Europe = Some fe \<and>
            map_of regionalFactors South_America = Some fs \<and>
            factors.temperature fe = lit (11 / 10) \<and>
            factors.temperature fs = lit (11 / 10) \<and>
            factors.precipitation fe \<noteq> factors.precipitation fs"
    unfolding lookup_Europe lookup_South_America using ne by simp
  have c: "getRegionalHistoricalData Europe = getRegionalHistoricalData South_America"
    by (simp add: getRegionalHistoricalData_def lookup_Europe lookup_South_America)
  from a b c show ?thesis by (intro conjI)
qed

theorem series_depends_on_temperature_factor_witness:
  "(map_of regionalFactors North_America =
      Some \<lparr>factors.temperature = lit (12 / 10), precipitation = lit (13 / 10),
             seaLevel = lit (8 / 10), extremeEvents = lit (11 / 10)\<rparr> \<and>
    map_of regionalFactors Oceania =
      Some \<lparr>factors.temperature = lit (12 / 10), precipitation = lit (9 / 10),
             seaLevel = lit (13 / 10), extremeEvents = lit (11 / 10)\<rparr> \<and>
    factors.temperature \<lparr>factors.temperature = lit (12 / 10), precipitation = lit (13 / 10),
             seaLevel = lit (8 / 10), extremeEvents = lit (11 / 10)\<rparr> =
    factors.temperature \<lparr>factors.temperature = lit (12 / 10), precipitation = lit (9 / 10),
             seaLevel = lit (13 / 10), extremeEvents = lit (11 / 10)\<rparr>) \<and>
   getRegionalHistoricalData North_America = getRegionalHistoricalData Oceania"
proof -
  have h: "map_of regionalFactors North_America =
      Some \<lparr>factors.temperature = lit (12 / 10), precipitation = lit (13 / 10),
             seaLevel = lit (8 / 10), extremeEvents = lit (11 / 10)\<rparr> \<and>
    map_of regionalFactors Oceania =
      Some \<lparr>factors.temperature = lit (12 / 10), precipitation = lit (9 / 10),
             seaLevel = lit (13 / 10), extremeEvents = lit (11 / 10)\<rparr> \<and>
    factors.temperature \<lparr>factors.temperature = lit (12 / 10), precipitation = lit (13 / 10),
             seaLevel = lit (8 / 10), extremeEvents = lit (11 / 10)\<rparr> =
    factors.temperature \<lparr>factors.temperature = lit (12 / 10), precipitation = lit (9 / 10),
             seaLevel = lit (13 / 10), extremeEvents = lit (11 / 10)\<rparr>"
    by (simp add: regionalFactors_def)
  from series_depends_on_temperature_factor[of North_America _ Oceania] h
  show ?thesis by blast
qed

end
